theory Spec2Isabelle
  imports Main "HOL-Library.Sublist" "HOL-Library.Char_ord" "HOL-Library.List_Lexorder"
    "HOL-Library.Multiset"
begin

section \<open>The activity log of \<open>ckan/model/activity.py\<close>\<close>

subsection \<open>Rows of the two mapped tables\<close>

text \<open>
  The column \<open>data\<close> has the type \<open>JsonDictType\<close>: a Python dict of JSON values, kept here
  as an association list so that two rows can be compared.
\<close>

datatype json =
    JNull
  | JBool bool
  | JNum int
  | JStr string
  | JList "json list"
  | JDict "(string \<times> json) list"

type_synonym dict = "(string \<times> json) list"

text \<open>
  One row of \<open>activity_table\<close>. \<open>id'\<close> is the column \<open>id\<close> (the primary key, a uuid
  string); \<open>timestamp\<close> is a \<open>DateTime\<close>, counted in microseconds. An attribute that
  Python can leave at \<open>None\<close> is an option.
\<close>

record activity =
  id' :: string
  timestamp :: int
  user_id :: string
  object_id :: string
  revision_id :: "string option"
  activity_type :: string
  data :: "dict option"

text \<open>
  One \<open>ActivityDetail\<close>. The column \<open>id\<close> is filled by the table's default when the row
  is written, not by the constructor, so it starts as \<open>None\<close>.
\<close>

record activity_detail =
  detail_id :: "string option"
  activity_id :: string
  detail_object_id :: string
  object_type :: string
  detail_activity_type :: string
  detail_data :: "dict option"

text \<open>
  \<open>Activity.__init__\<close>. The two values the constructor draws from its environment,
  \<open>_types.make_uuid()\<close> and \<open>datetime.datetime.now()\<close>, are arguments here. The keyword
  argument \<open>data=None\<close> is an option: \<open>None\<close> when it is omitted or passed as \<open>None\<close>.
\<close>

definition Activity_init ::
  "string \<Rightarrow> int \<Rightarrow> string \<Rightarrow> string \<Rightarrow> string option \<Rightarrow> string \<Rightarrow> dict option \<Rightarrow> activity" where
  "Activity_init uuid now user_id_arg object_id_arg revision_id_arg activity_type_arg data_arg =
     \<lparr> id' = uuid,
       timestamp = now,
       user_id = user_id_arg,
       object_id = object_id_arg,
       revision_id = revision_id_arg,
       activity_type = activity_type_arg,
       data = (case data_arg of None \<Rightarrow> Some [] | Some d \<Rightarrow> Some d) \<rparr>"

text \<open>\<open>ActivityDetail.__init__\<close>.\<close>

definition ActivityDetail_init ::
  "string \<Rightarrow> string \<Rightarrow> string \<Rightarrow> string \<Rightarrow> dict option \<Rightarrow> activity_detail" where
  "ActivityDetail_init activity_id_arg object_id_arg object_type_arg activity_type_arg data_arg =
     \<lparr> detail_id = None,
       activity_id = activity_id_arg,
       detail_object_id = object_id_arg,
       object_type = object_type_arg,
       detail_activity_type = activity_type_arg,
       detail_data = (case data_arg of None \<Rightarrow> Some [] | Some d \<Rightarrow> Some d) \<rparr>"

subsection \<open>The store behind \<open>meta.Session\<close>\<close>

text \<open>
  A row of one of the follower tables (\<open>UserFollowingUser\<close>, \<open>UserFollowingDataset\<close>,
  \<open>UserFollowingGroup\<close>): \<open>follower_id\<close> follows \<open>followee_id\<close> (the column
  \<open>object_id\<close> of those tables).
\<close>

record following =
  follower_id :: string
  followee_id :: string

text \<open>A dataset as \<open>group.packages()\<close> lists it, and a group as \<open>Group.get\<close> returns it.\<close>

record package =
  package_id :: string

record group =
  packages :: "package list"

text \<open>
  The database the statements run on. The two differ in what they do with the count of a
  \<open>LIMIT\<close> or \<open>OFFSET\<close> and in how \<open>LIKE\<close> compares letters; see \<open>accepts\<close>,
  \<open>rows\<close> and \<open>holds\<close>.
\<close>

datatype dialect = PostgreSQL | SQLite

subsection \<open>Queries\<close>

text \<open>
  The criteria the module passes to \<open>filter\<close>: comparisons of a column of \<open>Activity\<close>
  with a value, \<open>in_\<close>, \<open>or_\<close>, \<open>endswith\<close>, the comparison of \<open>follower_id\<close> of a
  joined follower table, and the textual criterion \<open>"0=1"\<close>.
\<close>

datatype follow_table = UserFollowingUser | UserFollowingDataset

datatype activity_column = Activity_user_id | Activity_object_id

datatype criterion =
    UserIdEq string
  | ObjectIdEq string
  | ObjectIdIn "string list"
  | Or criterion criterion
  | ActivityTypeEndswith string
  | FollowerIdEq follow_table string
  | ZeroEqOne

text \<open>
  A query object, as the calls of the module build it. \<open>Query\<close> is
  \<open>meta.Session.query(Activity)\<close>; \<open>Join q t c\<close> is \<open>q.join(t, t.object_id == c)\<close>;
  \<open>UnionDistinct q qs\<close> is \<open>q.union(*qs)\<close> and \<open>UnionAll q qs\<close> is \<open>q.union_all(*qs)\<close>;
  \<open>OrderByTimestampDesc q\<close> is \<open>q.order_by(desc(Activity.timestamp))\<close>.
\<close>

datatype query =
    Query
  | Filter query criterion
  | Join query follow_table activity_column
  | UnionDistinct query "query list"
  | UnionAll query "query list"
  | OrderByTimestampDesc query
  | Offset query int
  | Limit query int

text \<open>
  Everything the module reads through \<open>meta.Session\<close> and \<open>ckan.model\<close>. The tables are
  lists of rows, in the order in which the database yields them when no ordering is asked
  for. \<open>Group.get\<close> and \<open>UserFollowingGroup.followee_list\<close> belong to other modules of
  \<open>ckan.model\<close>; they are taken as they are called here, a lookup that may return
  \<open>None\<close> and a function that returns a list of follower rows.

  The module orders by timestamp alone, so the database is free to arrange rows with
  equal timestamps as it likes, and differently for each statement it is given.
  \<open>tie_order stmt\<close> is that choice for the statement \<open>stmt\<close>: among rows with the same
  timestamp, the row with the smaller number comes first.
\<close>

record store =
  activity_rows :: "activity list"
  user_following_user :: "following list"
  user_following_dataset :: "following list"
  Group_get :: "string \<Rightarrow> group option"
  UserFollowingGroup_followee_list :: "string \<Rightarrow> following list"
  dialect :: dialect
  tie_order :: "query \<Rightarrow> activity \<Rightarrow> nat"

text \<open>
  A row of a statement: the \<open>Activity\<close>, and the follower row joined to it, if one is.
\<close>

type_synonym row = "activity \<times> (follow_table \<times> following) option"

fun column :: "activity_column \<Rightarrow> activity \<Rightarrow> string" where
  "column Activity_user_id a = user_id a"
| "column Activity_object_id a = object_id a"

fun table_rows :: "store \<Rightarrow> follow_table \<Rightarrow> following list" where
  "table_rows s UserFollowingUser = user_following_user s"
| "table_rows s UserFollowingDataset = user_following_dataset s"

text \<open>
  \<open>endswith\<close> is rendered as \<open>LIKE '%' || v\<close>. PostgreSQL compares the letters as they
  are; SQLite's \<open>LIKE\<close> takes an upper-case and a lower-case ASCII letter for the same.
  The only pattern the module writes is \<open>package\<close>, which has no wildcard in it.
\<close>

definition ascii_lower :: "char \<Rightarrow> char" where
  "ascii_lower c =
     (case map_of (zip ''ABCDEFGHIJKLMNOPQRSTUVWXYZ'' ''abcdefghijklmnopqrstuvwxyz'') c of
        None \<Rightarrow> c
      | Some l \<Rightarrow> l)"

fun like_suffix :: "dialect \<Rightarrow> string \<Rightarrow> string \<Rightarrow> bool" where
  "like_suffix PostgreSQL v x = suffix v x"
| "like_suffix SQLite v x = suffix (map ascii_lower v) (map ascii_lower x)"

fun holds :: "dialect \<Rightarrow> criterion \<Rightarrow> row \<Rightarrow> bool" where
  "holds d (UserIdEq v) r = (user_id (fst r) = v)"
| "holds d (ObjectIdEq v) r = (object_id (fst r) = v)"
| "holds d (ObjectIdIn vs) r = (object_id (fst r) \<in> set vs)"
| "holds d (Or c c') r = (holds d c r \<or> holds d c' r)"
| "holds d (ActivityTypeEndswith v) r = like_suffix d v (activity_type (fst r))"
| "holds d (FollowerIdEq t v) r =
     (case snd r of None \<Rightarrow> False | Some (t', f) \<Rightarrow> t' = t \<and> follower_id f = v)"
| "holds d ZeroEqOne r = False"

definition entity_row :: "activity \<Rightarrow> row" where
  "entity_row a = (a, None)"

definition joined :: "store \<Rightarrow> follow_table \<Rightarrow> activity_column \<Rightarrow> row \<Rightarrow> row list" where
  "joined s t c r =
     map (\<lambda>f. (fst r, Some (t, f)))
       (filter (\<lambda>f. followee_id f = column c (fst r)) (table_rows s t))"

text \<open>
  The rows that the query \<open>q\<close> yields as a part of the statement \<open>stmt\<close>, in the order
  it yields them. A union selects the \<open>Activity\<close> columns of its members; \<open>UNION\<close>
  keeps one copy of equal rows, \<open>UNION ALL\<close> keeps them all. The ordering puts the newer
  timestamp first and, among equal timestamps, follows the store's \<open>tie_order\<close> for the
  statement. A negative count is read as SQLite reads it, the only database that lets
  one through (see \<open>accepts\<close>): a negative \<open>LIMIT\<close> is no bound, a negative \<open>OFFSET\<close>
  is zero.
\<close>

fun rows :: "store \<Rightarrow> query \<Rightarrow> query \<Rightarrow> row list" where
  "rows s stmt Query = map entity_row (activity_rows s)"
| "rows s stmt (Filter q c) = filter (holds (dialect s) c) (rows s stmt q)"
| "rows s stmt (Join q t c) = concat (map (joined s t c) (rows s stmt q))"
| "rows s stmt (UnionDistinct q qs) =
     map entity_row (remdups (concat (map (\<lambda>p. map fst (rows s stmt p)) (q # qs))))"
| "rows s stmt (UnionAll q qs) =
     map entity_row (concat (map (\<lambda>p. map fst (rows s stmt p)) (q # qs)))"
| "rows s stmt (OrderByTimestampDesc q) =
     sort_key (\<lambda>r. - timestamp (fst r))
       (sort_key (\<lambda>r. tie_order s stmt (fst r)) (rows s stmt q))"
| "rows s stmt (Offset q n) = (if n < 0 then rows s stmt q else drop (nat n) (rows s stmt q))"
| "rows s stmt (Limit q n) = (if n < 0 then rows s stmt q else take (nat n) (rows s stmt q))"

text \<open>The counts of all \<open>OFFSET\<close> and \<open>LIMIT\<close> clauses of a statement.\<close>

fun counts :: "query \<Rightarrow> int list" where
  "counts Query = []"
| "counts (Filter q c) = counts q"
| "counts (Join q t c) = counts q"
| "counts (UnionDistinct q qs) = counts q @ concat (map counts qs)"
| "counts (UnionAll q qs) = counts q @ concat (map counts qs)"
| "counts (OrderByTimestampDesc q) = counts q"
| "counts (Offset q n) = n # counts q"
| "counts (Limit q n) = n # counts q"

text \<open>
  What a call can raise. \<open>DataError\<close> is PostgreSQL's refusal of a statement;
  \<open>OverflowError\<close> is raised by the SQLite driver for an integer that does not fit a
  signed 64-bit integer; \<open>InvalidArgument\<close> is the kind the specification names for a
  refused \<open>limit\<close> or \<open>offset\<close>, which no line of the module raises.
\<close>

datatype error = InvalidArgument | DataError | OverflowError

text \<open>
  The counts a database runs a statement with. PostgreSQL takes a count from \<open>0\<close> to
  \<open>2^63 - 1\<close>: it refuses a negative one ("LIMIT must not be negative") and one that is
  out of the range of \<open>bigint\<close>. The SQLite driver binds any signed 64-bit integer and
  raises for every other.
\<close>

fun accepts :: "dialect \<Rightarrow> int \<Rightarrow> bool" where
  "accepts PostgreSQL n = (0 \<le> n \<and> n < 2 ^ 63)"
| "accepts SQLite n = (- (2 ^ 63) \<le> n \<and> n < 2 ^ 63)"

fun refusal :: "dialect \<Rightarrow> error" where
  "refusal PostgreSQL = DataError"
| "refusal SQLite = OverflowError"

text \<open>
  \<open>q.all()\<close>: run the statement and return its \<open>Activity\<close> objects, or fail with the
  database's refusal of one of its counts.
\<close>

definition all_q :: "store \<Rightarrow> query \<Rightarrow> error + activity list" where
  "all_q s q =
     (if list_all (accepts (dialect s)) (counts q) then Inr (map fst (rows s q q))
      else Inl (refusal (dialect s)))"

subsection \<open>The functions of the module\<close>

text \<open>Python's truth value of a \<open>limit\<close> or \<open>offset\<close>: \<open>None\<close> and \<open>0\<close> are false.\<close>

fun truthy :: "int option \<Rightarrow> bool" where
  "truthy None = False"
| "truthy (Some n) = (n \<noteq> 0)"

text \<open>
  The two conditional steps of \<open>_activities_at_offset\<close>:
  \<open>if offset: q = q.offset(offset)\<close> and \<open>if limit: q = q.limit(limit)\<close>.
\<close>

fun with_offset :: "query \<Rightarrow> int option \<Rightarrow> query" where
  "with_offset q None = q"
| "with_offset q (Some n) = (if truthy (Some n) then Offset q n else q)"

fun with_limit :: "query \<Rightarrow> int option \<Rightarrow> query" where
  "with_limit q None = q"
| "with_limit q (Some n) = (if truthy (Some n) then Limit q n else q)"

definition activities_at_offset ::
  "store \<Rightarrow> query \<Rightarrow> int option \<Rightarrow> int option \<Rightarrow> error + activity list" where
  "activities_at_offset s q limit offset =
     (let q = OrderByTimestampDesc q;
          q = with_offset q offset;
          q = with_limit q limit
      in all_q s q)"

definition activities_from_user_query :: "string \<Rightarrow> query" where
  "activities_from_user_query user = Filter Query (UserIdEq user)"

definition activities_about_user_query :: "string \<Rightarrow> query" where
  "activities_about_user_query user = Filter Query (ObjectIdEq user)"

definition user_activity_query :: "string \<Rightarrow> query" where
  "user_activity_query user =
     UnionDistinct (activities_from_user_query user) [activities_about_user_query user]"

definition user_activity_list ::
  "store \<Rightarrow> string \<Rightarrow> int option \<Rightarrow> int option \<Rightarrow> error + activity list" where
  "user_activity_list s user limit offset =
     activities_at_offset s (user_activity_query user) limit offset"

definition package_activity_query :: "string \<Rightarrow> query" where
  "package_activity_query pkg = Filter Query (ObjectIdEq pkg)"

definition package_activity_list ::
  "store \<Rightarrow> string \<Rightarrow> int option \<Rightarrow> int option \<Rightarrow> error + activity list" where
  "package_activity_list s pkg limit offset =
     activities_at_offset s (package_activity_query pkg) limit offset"

definition group_activity_query :: "store \<Rightarrow> string \<Rightarrow> query" where
  "group_activity_query s grp =
     (case Group_get s grp of
        None \<Rightarrow> Filter Query ZeroEqOne
      | Some g \<Rightarrow>
          (let dataset_ids = map package_id (packages g)
           in if dataset_ids \<noteq> []
              then Filter Query (Or (ObjectIdEq grp) (ObjectIdIn dataset_ids))
              else Filter Query (ObjectIdEq grp)))"

definition group_activity_list ::
  "store \<Rightarrow> string \<Rightarrow> int option \<Rightarrow> int option \<Rightarrow> error + activity list" where
  "group_activity_list s grp limit offset =
     activities_at_offset s (group_activity_query s grp) limit offset"

definition activites_from_users_followed_by_user_query :: "string \<Rightarrow> query" where
  "activites_from_users_followed_by_user_query user =
     Filter (Join Query UserFollowingUser Activity_user_id)
       (FollowerIdEq UserFollowingUser user)"

definition activities_from_datasets_followed_by_user_query :: "string \<Rightarrow> query" where
  "activities_from_datasets_followed_by_user_query user =
     Filter (Join Query UserFollowingDataset Activity_object_id)
       (FollowerIdEq UserFollowingDataset user)"

definition activities_from_groups_followed_by_user_query :: "store \<Rightarrow> string \<Rightarrow> query" where
  "activities_from_groups_followed_by_user_query s user =
     (case UserFollowingGroup_followee_list s user of
        [] \<Rightarrow> Filter Query ZeroEqOne
      | first # rest \<Rightarrow>
          UnionAll (group_activity_query s (followee_id first))
            (map (\<lambda>follower. group_activity_query s (followee_id follower)) rest))"

definition activities_from_everything_followed_by_user_query :: "store \<Rightarrow> string \<Rightarrow> query" where
  "activities_from_everything_followed_by_user_query s user =
     (let q = activites_from_users_followed_by_user_query user;
          q = UnionDistinct q [activities_from_datasets_followed_by_user_query user];
          q = UnionDistinct q [activities_from_groups_followed_by_user_query s user]
      in q)"

definition activities_from_everything_followed_by_user ::
  "store \<Rightarrow> string \<Rightarrow> int option \<Rightarrow> int option \<Rightarrow> error + activity list" where
  "activities_from_everything_followed_by_user s user limit offset =
     activities_at_offset s (activities_from_everything_followed_by_user_query s user)
       limit offset"

definition dashboard_activity_query :: "store \<Rightarrow> string \<Rightarrow> query" where
  "dashboard_activity_query s user =
     UnionDistinct (activities_from_user_query user)
       [activities_about_user_query user,
        activites_from_users_followed_by_user_query user,
        activities_from_datasets_followed_by_user_query user,
        activities_from_groups_followed_by_user_query s user]"

definition dashboard_activity_list ::
  "store \<Rightarrow> string \<Rightarrow> int option \<Rightarrow> int option \<Rightarrow> error + activity list" where
  "dashboard_activity_list s user limit offset =
     activities_at_offset s (dashboard_activity_query s user) limit offset"

definition changed_packages_activity_query :: query where
  "changed_packages_activity_query = Filter Query (ActivityTypeEndswith ''package'')"

definition recently_changed_packages_activity_list ::
  "store \<Rightarrow> int option \<Rightarrow> int option \<Rightarrow> error + activity list" where
  "recently_changed_packages_activity_list s limit offset =
     activities_at_offset s changed_packages_activity_query limit offset"

subsection \<open>The six feed operations\<close>

text \<open>
  The public functions of the module that return an activity stream, under one name each,
  so that a statement can range over all of them. \<open>feed_list\<close> calls the function;
  \<open>feed_query\<close> is the query that function passes to \<open>_activities_at_offset\<close>.
\<close>

datatype feed =
    UserActivityList string
  | PackageActivityList string
  | GroupActivityList string
  | ActivitiesFromEverythingFollowedByUser string
  | DashboardActivityList string
  | RecentlyChangedPackagesActivityList

fun feed_list :: "store \<Rightarrow> feed \<Rightarrow> int option \<Rightarrow> int option \<Rightarrow> error + activity list" where
  "feed_list s (UserActivityList u) limit offset = user_activity_list s u limit offset"
| "feed_list s (PackageActivityList p) limit offset = package_activity_list s p limit offset"
| "feed_list s (GroupActivityList g) limit offset = group_activity_list s g limit offset"
| "feed_list s (ActivitiesFromEverythingFollowedByUser u) limit offset =
     activities_from_everything_followed_by_user s u limit offset"
| "feed_list s (DashboardActivityList u) limit offset = dashboard_activity_list s u limit offset"
| "feed_list s RecentlyChangedPackagesActivityList limit offset =
     recently_changed_packages_activity_list s limit offset"

fun feed_query :: "store \<Rightarrow> feed \<Rightarrow> query" where
  "feed_query s (UserActivityList u) = user_activity_query u"
| "feed_query s (PackageActivityList p) = package_activity_query p"
| "feed_query s (GroupActivityList g) = group_activity_query s g"
| "feed_query s (ActivitiesFromEverythingFollowedByUser u) =
     activities_from_everything_followed_by_user_query s u"
| "feed_query s (DashboardActivityList u) = dashboard_activity_query s u"
| "feed_query s RecentlyChangedPackagesActivityList = changed_packages_activity_query"

subsection \<open>Notions used in the statements\<close>

text \<open>A \<open>limit\<close> or \<open>offset\<close> that is a negative number.\<close>

fun negative :: "int option \<Rightarrow> bool" where
  "negative None = False"
| "negative (Some n) = (n < 0)"

text \<open>
  A \<open>limit\<close> or \<open>offset\<close> that does not make the database refuse the statement: it is
  absent or zero, and so never reaches the database, or it is a count the database
  accepts.
\<close>

fun accepted :: "dialect \<Rightarrow> int option \<Rightarrow> bool" where
  "accepted d None = True"
| "accepted d (Some n) = (n = 0 \<or> accepts d n)"

text \<open>A \<open>limit\<close> or \<open>offset\<close> that is absent or a number from \<open>0\<close> to \<open>2^63 - 1\<close>.\<close>

fun in_range :: "int option \<Rightarrow> bool" where
  "in_range None = True"
| "in_range (Some n) = (0 \<le> n \<and> n < 2 ^ 63)"

text \<open>The statement that \<open>_activities_at_offset\<close> runs for a query.\<close>

definition statement :: "query \<Rightarrow> int option \<Rightarrow> int option \<Rightarrow> query" where
  "statement q limit offset = with_limit (with_offset (OrderByTimestampDesc q) offset) limit"

text \<open>A query with no ordering, offset or limit in it.\<close>

fun plain :: "query \<Rightarrow> bool" where
  "plain Query = True"
| "plain (Filter q c) = plain q"
| "plain (Join q t c) = plain q"
| "plain (UnionDistinct q qs) = (plain q \<and> list_all plain qs)"
| "plain (UnionAll q qs) = (plain q \<and> list_all plain qs)"
| "plain (OrderByTimestampDesc q) = False"
| "plain (Offset q n) = False"
| "plain (Limit q n) = False"

text \<open>
  The whole stream of a query in the order that the statement \<open>stmt\<close> gives it, and the
  stream as \<open>q.order_by(...).all()\<close> returns it when neither \<open>offset\<close> nor \<open>limit\<close> is
  called.
\<close>

definition stream :: "store \<Rightarrow> query \<Rightarrow> query \<Rightarrow> activity list" where
  "stream s stmt q = map fst (rows s stmt (OrderByTimestampDesc q))"

definition newest_first :: "store \<Rightarrow> query \<Rightarrow> activity list" where
  "newest_first s q = stream s (OrderByTimestampDesc q) q"

text \<open>
  The part of a list that a pair of \<open>limit\<close> and \<open>offset\<close> selects once the database has
  accepted them: a positive offset skips, a positive limit caps, anything else leaves the
  list as it is.
\<close>

definition window :: "int option \<Rightarrow> int option \<Rightarrow> 'a list \<Rightarrow> 'a list" where
  "window limit offset xs =
     (let ys = (case offset of None \<Rightarrow> xs | Some k \<Rightarrow> if 0 < k then drop (nat k) xs else xs)
      in case limit of None \<Rightarrow> ys | Some n \<Rightarrow> if 0 < n then take (nat n) ys else ys)"

subsection \<open>Example logs\<close>

text \<open>
  The log of the scenario: user \<open>U1\<close> registers at time 10 and creates the dataset \<open>P1\<close>
  at time 20. Nobody follows anything and there is no group.
\<close>

definition A1 :: activity where
  "A1 = \<lparr> id' = ''a1'', timestamp = 10, user_id = ''U1'', object_id = ''U1'',
          revision_id = None, activity_type = ''new_user'', data = Some [] \<rparr>"

definition A2 :: activity where
  "A2 = \<lparr> id' = ''a2'', timestamp = 20, user_id = ''U1'', object_id = ''P1'',
          revision_id = Some ''r1'', activity_type = ''new_package'', data = Some [] \<rparr>"

definition scenario_store :: store where
  "scenario_store =
     \<lparr> activity_rows = [A1, A2],
       user_following_user = [],
       user_following_dataset = [],
       Group_get = (\<lambda>g. None),
       UserFollowingGroup_followee_list = (\<lambda>u. []),
       dialect = PostgreSQL,
       tie_order = (\<lambda>stmt a. 0) \<rparr>"

text \<open>The same log on SQLite.\<close>

definition scenario_store_sqlite :: store where
  "scenario_store_sqlite = scenario_store \<lparr> dialect := SQLite \<rparr>"

text \<open>\<open>U1\<close> changes the own profile at time 30: a second activity from and about \<open>U1\<close>.\<close>

definition A3 :: activity where
  "A3 = \<lparr> id' = ''a3'', timestamp = 30, user_id = ''U1'', object_id = ''U1'',
          revision_id = None, activity_type = ''changed_user'', data = Some [] \<rparr>"

definition profile_store :: store where
  "profile_store = scenario_store \<lparr> activity_rows := [A1, A2, A3] \<rparr>"

text \<open>Two changes of the dataset \<open>P1\<close> within the same microsecond.\<close>

definition B1 :: activity where
  "B1 = \<lparr> id' = ''b1'', timestamp = 40, user_id = ''U1'', object_id = ''P1'',
          revision_id = Some ''r2'', activity_type = ''changed_package'', data = Some [] \<rparr>"

definition B2 :: activity where
  "B2 = \<lparr> id' = ''b2'', timestamp = 40, user_id = ''U2'', object_id = ''P1'',
          revision_id = Some ''r3'', activity_type = ''changed_package'', data = Some [] \<rparr>"

definition tie_store :: store where
  "tie_store = scenario_store \<lparr> activity_rows := [B1, B2] \<rparr>"

text \<open>
  The dataset \<open>P1\<close> belongs to the groups \<open>G1\<close> and \<open>G2\<close>; user \<open>U3\<close> follows both
  groups, the user \<open>U1\<close> and the dataset \<open>P1\<close>.
\<close>

definition follower_store :: store where
  "follower_store =
     \<lparr> activity_rows = [A1, A2],
       user_following_user = [\<lparr> follower_id = ''U3'', followee_id = ''U1'' \<rparr>],
       user_following_dataset = [\<lparr> follower_id = ''U3'', followee_id = ''P1'' \<rparr>],
       Group_get = (\<lambda>g. if g = ''G1'' \<or> g = ''G2''
                         then Some \<lparr> packages = [\<lparr> package_id = ''P1'' \<rparr>] \<rparr> else None),
       UserFollowingGroup_followee_list =
         (\<lambda>u. if u = ''U3''
              then [\<lparr> follower_id = ''U3'', followee_id = ''G1'' \<rparr>,
                    \<lparr> follower_id = ''U3'', followee_id = ''G2'' \<rparr>]
              else []),
       dialect = PostgreSQL,
       tie_order = (\<lambda>stmt a. 0) \<rparr>"

text \<open>\<open>U3\<close> follows the user \<open>U1\<close> and the dataset \<open>P1\<close>, and no group.\<close>

definition groupless_store :: store where
  "groupless_store =
     follower_store \<lparr> Group_get := (\<lambda>g. None), UserFollowingGroup_followee_list := (\<lambda>u. []) \<rparr>"

text \<open>
  The log of the two simultaneous changes on a database that, asked for the two newest
  activities of \<open>P1\<close>, puts \<open>B2\<close> before \<open>B1\<close>, and in every other statement leaves
  them as they are stored.
\<close>

definition paging_store :: store where
  "paging_store =
     tie_store \<lparr> tie_order :=
       (\<lambda>stmt a. if stmt = Limit (OrderByTimestampDesc (Filter Query (ObjectIdEq ''P1''))) 2
                    \<and> a \<noteq> B2
                 then 1 else 0) \<rparr>"

section \<open>Properties\<close>

subsection \<open>What \<open>_activities_at_offset\<close> computes\<close>

lemma feed_list_query:
  "feed_list s f limit offset = activities_at_offset s (feed_query s f) limit offset"
  by (cases f)
    (simp_all add: user_activity_list_def package_activity_list_def group_activity_list_def
      activities_from_everything_followed_by_user_def dashboard_activity_list_def
      recently_changed_packages_activity_list_def)

lemma activities_at_offset_statement:
  "activities_at_offset s q limit offset = all_q s (statement q limit offset)"
  by (simp add: activities_at_offset_def statement_def Let_def)

lemma statement_falsy_limit: "\<not> truthy limit \<Longrightarrow> statement q limit offset = statement q None offset"
  by (cases limit) (simp_all add: statement_def)

lemma statement_falsy_offset: "\<not> truthy offset \<Longrightarrow> statement q limit offset = statement q limit None"
  by (cases offset) (simp_all add: statement_def)

lemma statement_unwindowed: "statement q None None = OrderByTimestampDesc q"
  by (simp add: statement_def)

lemma counts_statement:
  "list_all (accepts d) (counts (statement q limit offset)) =
     (accepted d limit \<and> accepted d offset \<and> list_all (accepts d) (counts q))"
  by (cases limit; cases offset) (auto simp: statement_def)

lemma rows_with_offset:
  "rows s stmt (with_offset q offset) =
     (case offset of None \<Rightarrow> rows s stmt q
      | Some k \<Rightarrow> if 0 < k then drop (nat k) (rows s stmt q) else rows s stmt q)"
  by (cases offset) auto

lemma rows_with_limit:
  "rows s stmt (with_limit q limit) =
     (case limit of None \<Rightarrow> rows s stmt q
      | Some n \<Rightarrow> if 0 < n then take (nat n) (rows s stmt q) else rows s stmt q)"
  by (cases limit) auto

lemma entities_statement:
  "map fst (rows s stmt (statement q limit offset)) = window limit offset (stream s stmt q)"
  unfolding statement_def rows_with_limit rows_with_offset window_def stream_def Let_def
  by (auto simp: take_map drop_map split: option.splits)

lemma activities_at_offset_eq:
  "activities_at_offset s q limit offset =
     (if accepted (dialect s) limit \<and> accepted (dialect s) offset
         \<and> list_all (accepts (dialect s)) (counts q)
      then Inr (window limit offset (stream s (statement q limit offset) q))
      else Inl (refusal (dialect s)))"
  by (simp add: activities_at_offset_statement all_q_def counts_statement entities_statement)

subsection \<open>Queries without ordering and counts\<close>

lemma plain_counts: "plain q \<Longrightarrow> counts q = []"
  by (induction q) (auto simp: list_all_iff)

lemma plain_rows: "plain q \<Longrightarrow> rows s stmt q = rows s stmt' q"
proof (induction q)
  case (UnionDistinct q qs)
  then have e: "concat (map (\<lambda>p. map fst (rows s stmt p)) qs) =
      concat (map (\<lambda>p. map fst (rows s stmt' p)) qs)"
    by (intro arg_cong [where f = concat] map_cong) (auto simp: list_all_iff)
  from UnionDistinct have "rows s stmt q = rows s stmt' q"
    by simp
  with e show ?case by simp
next
  case (UnionAll q qs)
  then have e: "concat (map (\<lambda>p. map fst (rows s stmt p)) qs) =
      concat (map (\<lambda>p. map fst (rows s stmt' p)) qs)"
    by (intro arg_cong [where f = concat] map_cong) (auto simp: list_all_iff)
  from UnionAll have "rows s stmt q = rows s stmt' q"
    by simp
  with e show ?case by simp
qed simp_all

lemma plain_group_activity_query [simp]: "plain (group_activity_query s g)"
  by (simp add: group_activity_query_def Let_def split: option.splits)

lemma plain_groups_followed [simp]:
  "plain (activities_from_groups_followed_by_user_query s u)"
  by (simp add: activities_from_groups_followed_by_user_query_def list_all_iff
      split: list.splits)

lemma plain_feed_query [simp]: "plain (feed_query s f)"
  by (cases f)
    (simp_all add: user_activity_query_def package_activity_query_def
      activities_from_everything_followed_by_user_query_def dashboard_activity_query_def
      changed_packages_activity_query_def activities_from_user_query_def
      activities_about_user_query_def activites_from_users_followed_by_user_query_def
      activities_from_datasets_followed_by_user_query_def)

lemma feed_list_eq:
  "feed_list s f limit offset =
     (if accepted (dialect s) limit \<and> accepted (dialect s) offset
      then Inr (window limit offset
                 (stream s (statement (feed_query s f) limit offset) (feed_query s f)))
      else Inl (refusal (dialect s)))"
  by (simp add: feed_list_query activities_at_offset_eq plain_counts)

lemma falsy_accepted: "\<not> truthy x \<Longrightarrow> accepted d x"
  by (cases x) auto

lemma in_range_accepted: "in_range x \<Longrightarrow> accepted d x"
  by (cases x; cases d) auto

lemma positive_accepted: "0 < n \<Longrightarrow> n < 2 ^ 63 \<Longrightarrow> accepted d (Some n)"
  by (cases d) auto

subsection \<open>Windows\<close>

lemma sorted_window: "sorted (map f xs) \<Longrightarrow> sorted (map f (window limit offset xs))"
  by (auto simp: window_def Let_def sorted_wrt_take sorted_wrt_drop
      simp flip: take_map drop_map split: option.splits)

lemma distinct_window: "distinct xs \<Longrightarrow> distinct (window limit offset xs)"
  by (auto simp: window_def Let_def split: option.splits)

lemma window_falsy: "\<not> truthy limit \<Longrightarrow> \<not> truthy offset \<Longrightarrow> window limit offset xs = xs"
  by (cases limit; cases offset) (auto simp: window_def)

lemma window_Nil [simp]: "window limit offset [] = []"
  by (simp add: window_def split: option.splits)

lemma mset_take_le: "mset (take n xs) \<subseteq># mset xs"
proof -
  have "mset (take n xs) + mset (drop n xs) = mset xs"
    by (simp flip: mset_append)
  then show ?thesis
    by (metis mset_subset_eq_add_left)
qed

lemma mset_drop_le: "mset (drop n xs) \<subseteq># mset xs"
proof -
  have "mset (take n xs) + mset (drop n xs) = mset xs"
    by (simp flip: mset_append)
  then show ?thesis
    by (metis mset_subset_eq_add_right)
qed

subsection \<open>The ordered stream\<close>

lemma fst_comp_entity_row [simp]: "fst \<circ> entity_row = id"
  by (rule ext) (simp add: entity_row_def)

lemma fst_entity_row [simp]: "fst (entity_row a) = a"
  by (simp add: entity_row_def)

lemma snd_entity_row [simp]: "snd (entity_row a) = None"
  by (simp add: entity_row_def)

lemma sorted_stream: "sorted (map (\<lambda>a. - timestamp a) (stream s stmt q))"
proof -
  have "sorted (map (\<lambda>r. - timestamp (fst r)) (rows s stmt (OrderByTimestampDesc q)))"
    by (simp add: sorted_sort_key)
  then show ?thesis by (simp add: stream_def comp_def)
qed

lemma mset_stream: "mset (stream s stmt q) = mset (map fst (rows s stmt q))"
  by (simp add: stream_def)

lemma set_stream: "set (stream s stmt q) = set (map fst (rows s stmt q))"
  by (simp add: stream_def)

lemma distinct_stream: "distinct (stream s stmt q) = distinct (map fst (rows s stmt q))"
  by (rule mset_eq_imp_distinct_iff) (rule mset_stream)

lemma entities_Filter_Query:
  "map fst (rows s stmt (Filter Query c)) =
     filter (\<lambda>a. holds (dialect s) c (entity_row a)) (activity_rows s)"
  by (simp add: filter_map comp_def)

lemma entities_Union:
  "map fst (rows s stmt (UnionDistinct q qs)) =
     remdups (concat (map (\<lambda>p. map fst (rows s stmt p)) (q # qs)))"
  by simp

lemma distinct_stream_Union: "distinct (stream s stmt (UnionDistinct q qs))"
  unfolding distinct_stream entities_Union by (rule distinct_remdups)

lemma plain_mset_stream: "plain q \<Longrightarrow> mset (stream s stmt q) = mset (newest_first s q)"
  unfolding newest_first_def mset_stream
  by (simp add: plain_rows [of q s stmt "OrderByTimestampDesc q"])

lemma stream_unique:
  assumes "plain q" and "distinct (map timestamp (newest_first s q))"
  shows "stream s stmt q = newest_first s q"
proof (rule map_sorted_distinct_set_unique [where f = "\<lambda>a. - timestamp a"])
  have m: "mset (stream s stmt q) = mset (newest_first s q)"
    using assms(1) by (rule plain_mset_stream)
  then show e: "set (stream s stmt q) = set (newest_first s q)"
    by (rule mset_eq_setD)
  have "map (\<lambda>a. - timestamp a) xs = map uminus (map timestamp xs)" for xs :: "activity list"
    by simp
  then have d: "distinct (map (\<lambda>a. - timestamp a) (newest_first s q))"
    using assms(2) by (simp only: distinct_map) (auto simp: inj_on_def)
  then show "distinct (map (\<lambda>a. - timestamp a) (newest_first s q))" .
  from m have m': "mset (map (\<lambda>a. - timestamp a) (stream s stmt q)) =
      mset (map (\<lambda>a. - timestamp a) (newest_first s q))"
    by simp
  show "distinct (map (\<lambda>a. - timestamp a) (stream s stmt q))"
    using d mset_eq_imp_distinct_iff [OF m'] by blast
  from d have "inj_on (\<lambda>a. - timestamp a) (set (newest_first s q))"
    by (simp add: distinct_map)
  with e show "inj_on (\<lambda>a. - timestamp a) (set (stream s stmt q) \<union> set (newest_first s q))"
    by simp
  show "sorted (map (\<lambda>a. - timestamp a) (stream s stmt q))"
    by (rule sorted_stream)
  show "sorted (map (\<lambda>a. - timestamp a) (newest_first s q))"
    unfolding newest_first_def by (rule sorted_stream)
qed

lemma count_list_distinct: "distinct xs \<Longrightarrow> count_list xs a = (if a \<in> set xs then 1 else 0)"
  by (induction xs) auto

lemma set_user_stream:
  "set (stream s stmt (user_activity_query u)) =
     {a \<in> set (activity_rows s). user_id a = u \<or> object_id a = u}"
proof -
  have "map fst (rows s stmt (user_activity_query u)) =
      remdups (map fst (rows s stmt (Filter Query (UserIdEq u))) @
               map fst (rows s stmt (Filter Query (ObjectIdEq u))))"
    unfolding user_activity_query_def activities_from_user_query_def
      activities_about_user_query_def entities_Union by simp
  then show ?thesis
    unfolding set_stream entities_Filter_Query by auto
qed

subsection \<open>Evaluating the example logs\<close>

lemmas store_simps =
  scenario_store_def scenario_store_sqlite_def profile_store_def tie_store_def
  follower_store_def groupless_store_def paging_store_def

lemmas query_simps =
  user_activity_list_def package_activity_list_def group_activity_list_def
  activities_from_everything_followed_by_user_def dashboard_activity_list_def
  recently_changed_packages_activity_list_def
  user_activity_query_def package_activity_query_def group_activity_query_def
  activities_from_everything_followed_by_user_query_def dashboard_activity_query_def
  changed_packages_activity_query_def activities_from_user_query_def
  activities_about_user_query_def activites_from_users_followed_by_user_query_def
  activities_from_datasets_followed_by_user_query_def
  activities_from_groups_followed_by_user_query_def
  activities_at_offset_def all_q_def entity_row_def joined_def suffix_to_prefix
  ascii_lower_def

lemmas activity_simps = A1_def A2_def A3_def B1_def B2_def

lemma scenario_user_page:
  "feed_list scenario_store (UserActivityList ''U1'') (Some 10) (Some 0) = Inr [A2, A1]"
  by (simp add: query_simps store_simps activity_simps)

section \<open>The claims\<close>

text \<open>
  C1 (ordering), as the code has it. Whatever one of the six feed operations returns is
  ordered by timestamp descending: each activity is at least as recent as the next one.
  The query asks for no second sort key, so the order of activities with equal timestamps
  is the order in which the database yields them, not an order by id.
\<close>

theorem feed_list_timestamp_descending:
  assumes "feed_list s f limit offset = Inr r" and "Suc i < length r"
  shows "timestamp (r ! Suc i) \<le> timestamp (r ! i)"
proof -
  from assms(1) have r: "r = window limit offset
      (stream s (statement (feed_query s f) limit offset) (feed_query s f))"
    by (simp add: feed_list_eq split: if_splits)
  have "sorted (map (\<lambda>a. - timestamp a) r)"
    unfolding r by (rule sorted_window) (rule sorted_stream)
  then have "map (\<lambda>a. - timestamp a) r ! i \<le> map (\<lambda>a. - timestamp a) r ! Suc i"
    using assms(2) by (intro sorted_nth_mono) simp_all
  with assms(2) show ?thesis by simp
qed

theorem feed_list_timestamp_descending_witness:
  "feed_list scenario_store (UserActivityList ''U1'') (Some 10) (Some 0) = Inr [A2, A1]
   \<and> Suc 0 < length [A2, A1]
   \<and> timestamp ([A2, A1] ! Suc 0) \<le> timestamp ([A2, A1] ! 0)"
  using feed_list_timestamp_descending [OF scenario_user_page, of 0] scenario_user_page
  by simp

text \<open>
  C1 as stated fails where it orders equal timestamps by id descending: \<open>B1\<close> and \<open>B2\<close>
  carry the same timestamp, and the feed of their dataset returns \<open>B1\<close> first although
  its id is the smaller one.
\<close>

theorem feed_list_ties_by_id_counterexample:
  "feed_list tie_store (PackageActivityList ''P1'') None None = Inr [B1, B2]
   \<and> timestamp B1 = timestamp B2
   \<and> \<not> id' B2 < id' B1"
  by (simp add: query_simps store_simps activity_simps)

text \<open>
  C2 (no duplicates in the user feed), as the code has it. An activity of the log that is
  both from and about user \<open>u\<close> occurs exactly once in \<open>user_activity_list\<close> of \<open>u\<close>
  when no window is applied (\<open>limit\<close> and \<open>offset\<close> absent or zero), and at most once in
  any page that is returned.
\<close>

theorem user_activity_list_self_activity_once:
  assumes "a \<in> set (activity_rows s)" and "user_id a = u" and "object_id a = u"
  shows "(\<not> truthy limit \<and> \<not> truthy offset \<longrightarrow>
            (\<exists>r. user_activity_list s u limit offset = Inr r \<and> count_list r a = 1))
         \<and> (\<forall>r. user_activity_list s u limit offset = Inr r \<longrightarrow> count_list r a \<le> 1)"
proof -
  let ?all = "stream s (statement (user_activity_query u) limit offset) (user_activity_query u)"
  have list: "user_activity_list s u limit offset =
      (if accepted (dialect s) limit \<and> accepted (dialect s) offset
       then Inr (window limit offset ?all) else Inl (refusal (dialect s)))"
    using feed_list_eq [of s "UserActivityList u" limit offset] by simp
  have d: "distinct ?all"
    unfolding user_activity_query_def by (rule distinct_stream_Union)
  have "a \<in> set ?all"
    using assms by (simp add: set_user_stream)
  with d have one: "count_list ?all a = 1"
    by (simp add: count_list_distinct)
  have "count_list (window limit offset ?all) a \<le> 1"
    using d by (simp add: count_list_distinct distinct_window)
  with one show ?thesis
    by (auto simp: list window_falsy falsy_accepted)
qed

lemma profile_unwindowed:
  "user_activity_list profile_store ''U1'' None (Some 0) = Inr [A3, A2, A1]"
  by (simp add: query_simps store_simps activity_simps)

lemma profile_first_page:
  "user_activity_list profile_store ''U1'' (Some 1) None = Inr [A3]"
  by (simp add: query_simps store_simps activity_simps)

theorem user_activity_list_self_activity_once_witness:
  "A1 \<in> set (activity_rows profile_store) \<and> user_id A1 = ''U1'' \<and> object_id A1 = ''U1''
   \<and> \<not> truthy None \<and> \<not> truthy (Some 0)
   \<and> user_activity_list profile_store ''U1'' None (Some 0) = Inr [A3, A2, A1]
   \<and> count_list [A3, A2, A1] A1 = 1
   \<and> user_activity_list profile_store ''U1'' (Some 1) None = Inr [A3]
   \<and> count_list [A3] A1 \<le> 1"
proof -
  have h: "A1 \<in> set (activity_rows profile_store)" "user_id A1 = ''U1''" "object_id A1 = ''U1''"
    by (simp_all add: store_simps activity_simps)
  from user_activity_list_self_activity_once [OF h, of None "Some 0"]
    user_activity_list_self_activity_once [OF h, of "Some 1" None]
    profile_unwindowed profile_first_page h
  show ?thesis by simp
qed

text \<open>
  C2 as stated, for every \<open>limit\<close> and \<open>offset\<close>, fails: the page of length one holds only
  the newest activity, and \<open>A1\<close>, from and about \<open>U1\<close>, is not on it.
\<close>

theorem user_activity_list_self_activity_counterexample:
  "A1 \<in> set (activity_rows profile_store) \<and> user_id A1 = ''U1'' \<and> object_id A1 = ''U1''
   \<and> user_activity_list profile_store ''U1'' (Some 1) None = Inr [A3]
   \<and> count_list [A3] A1 \<noteq> 1"
  by (simp add: query_simps store_simps activity_simps)

text \<open>
  C3 (user who follows no group), as the code has it. The query of everything the user
  follows still has its third member: the query of the followed groups, which is then
  the query with the criterion \<open>"0=1"\<close>. It yields the same rows as the union of the
  followed-users query and the followed-datasets query alone, each as often: as a part
  of any statement, and when both queries are run without a limit and an offset.
\<close>

theorem everything_followed_query_without_groups:
  assumes "UserFollowingGroup_followee_list s u = []"
  shows "activities_from_everything_followed_by_user_query s u =
           UnionDistinct (UnionDistinct (activites_from_users_followed_by_user_query u)
                    [activities_from_datasets_followed_by_user_query u])
             [Filter Query ZeroEqOne]
         \<and> mset (map fst (rows s stmt (activities_from_everything_followed_by_user_query s u))) =
             mset (map fst (rows s stmt'
               (UnionDistinct (activites_from_users_followed_by_user_query u)
                  [activities_from_datasets_followed_by_user_query u])))
         \<and> (\<exists>xs ys. activities_from_everything_followed_by_user s u None None = Inr xs
               \<and> activities_at_offset s
                    (UnionDistinct (activites_from_users_followed_by_user_query u)
                       [activities_from_datasets_followed_by_user_query u]) None None = Inr ys
               \<and> mset xs = mset ys)"
proof -
  let ?two = "UnionDistinct (activites_from_users_followed_by_user_query u)
                [activities_from_datasets_followed_by_user_query u]"
  let ?three = "UnionDistinct ?two [Filter Query ZeroEqOne]"
  have q: "activities_from_everything_followed_by_user_query s u = ?three"
    using assms
    by (simp add: activities_from_everything_followed_by_user_query_def
        activities_from_groups_followed_by_user_query_def)
  have p2: "plain ?two" and p3: "plain ?three"
    by (simp_all add: activites_from_users_followed_by_user_query_def
        activities_from_datasets_followed_by_user_query_def)
  have r: "rows s st ?three = rows s st ?two" for st
    by (simp add: remdups_remdups)
  have m: "mset (map fst (rows s st ?three)) = mset (map fst (rows s st' ?two))" for st st'
    unfolding r by (simp only: plain_rows [OF p2, of s st st'])
  have c3: "counts ?three = []" and c2: "counts ?two = []"
    by (rule plain_counts [OF p3], rule plain_counts [OF p2])
  have u3: "activities_at_offset s ?three None None = Inr (newest_first s ?three)"
    unfolding activities_at_offset_eq c3
    by (simp add: window_def newest_first_def statement_unwindowed)
  have u2: "activities_at_offset s ?two None None = Inr (newest_first s ?two)"
    unfolding activities_at_offset_eq c2
    by (simp add: window_def newest_first_def statement_unwindowed)
  have "mset (newest_first s ?three) = mset (newest_first s ?two)"
    unfolding newest_first_def mset_stream by (rule m)
  with q m u2 u3 show ?thesis
    by (simp add: activities_from_everything_followed_by_user_def)
qed

lemma groupless_feed:
  "activities_from_everything_followed_by_user groupless_store ''U3'' None None = Inr [A2, A1]"
  by (simp add: query_simps store_simps activity_simps Let_def)

lemma groupless_two:
  "activities_at_offset groupless_store
     (UnionDistinct (activites_from_users_followed_by_user_query ''U3'')
        [activities_from_datasets_followed_by_user_query ''U3'']) None None = Inr [A2, A1]"
  by (simp add: query_simps store_simps activity_simps Let_def)

theorem everything_followed_query_without_groups_witness:
  "UserFollowingGroup_followee_list groupless_store ''U3'' = []
   \<and> activities_from_everything_followed_by_user_query groupless_store ''U3'' =
       UnionDistinct (UnionDistinct (activites_from_users_followed_by_user_query ''U3'')
                [activities_from_datasets_followed_by_user_query ''U3''])
         [Filter Query ZeroEqOne]
   \<and> activities_from_everything_followed_by_user groupless_store ''U3'' None None
       = Inr [A2, A1]
   \<and> activities_at_offset groupless_store
       (UnionDistinct (activites_from_users_followed_by_user_query ''U3'')
          [activities_from_datasets_followed_by_user_query ''U3'']) None None = Inr [A2, A1]
   \<and> mset [A2, A1] = mset [A2, A1]"
proof -
  have h: "UserFollowingGroup_followee_list groupless_store ''U3'' = []"
    by (simp add: store_simps)
  from everything_followed_query_without_groups [OF h] h groupless_feed groupless_two
  show ?thesis by simp
qed

text \<open>
  C3 as stated fails where it says that the group branch is left out of the union: for
  \<open>U1\<close>, who follows no group, the composed query is not the two-member union, and its
  last member is the query that matches nothing.
\<close>

theorem everything_followed_query_group_term_counterexample:
  "UserFollowingGroup_followee_list scenario_store ''U1'' = []
   \<and> activities_from_everything_followed_by_user_query scenario_store ''U1'' \<noteq>
       UnionDistinct (activites_from_users_followed_by_user_query ''U1'')
         [activities_from_datasets_followed_by_user_query ''U1'']
   \<and> activities_from_everything_followed_by_user_query scenario_store ''U1'' =
       UnionDistinct (UnionDistinct (activites_from_users_followed_by_user_query ''U1'')
                [activities_from_datasets_followed_by_user_query ''U1''])
         [Filter Query ZeroEqOne]"
  by (simp add: query_simps store_simps)

text \<open>
  C4 (negative \<open>limit\<close> or \<open>offset\<close>), as the code has it. No feed operation checks its
  \<open>limit\<close> or \<open>offset\<close>, and none fails with \<open>InvalidArgument\<close>, whatever the arguments.
  A negative number is true for Python, so it is handed to \<open>q.offset\<close> or \<open>q.limit\<close> as
  it is, and the outcome is the database's: PostgreSQL refuses the statement with its own
  error; SQLite runs it and a list is returned, unless a number is below \<open>-2^63\<close> or
  above \<open>2^63 - 1\<close>, which its driver refuses. With \<open>limit\<close> and \<open>offset\<close> absent or
  from \<open>0\<close> to \<open>2^63 - 1\<close> a list is returned.
\<close>

theorem feed_list_never_invalid_argument:
  "feed_list s f limit offset \<noteq> Inl InvalidArgument
   \<and> (in_range limit \<and> in_range offset \<longrightarrow> (\<exists>r. feed_list s f limit offset = Inr r))
   \<and> ((negative limit \<or> negative offset) \<and> dialect s = PostgreSQL \<longrightarrow>
          feed_list s f limit offset = Inl DataError)
   \<and> (accepted SQLite limit \<and> accepted SQLite offset \<and> dialect s = SQLite \<longrightarrow>
          (\<exists>r. feed_list s f limit offset = Inr r))
   \<and> (\<not> (accepted (dialect s) limit \<and> accepted (dialect s) offset) \<longrightarrow>
          feed_list s f limit offset = Inl (refusal (dialect s)))"
proof -
  have "refusal (dialect s) \<noteq> InvalidArgument"
    by (cases "dialect s") simp_all
  moreover have "\<not> accepted PostgreSQL x" if "negative x" for x
    using that by (cases x) auto
  ultimately show ?thesis
    by (auto simp: feed_list_eq in_range_accepted)
qed

theorem feed_list_never_invalid_argument_witness:
  "in_range (Some 10) \<and> in_range (Some 0)
   \<and> feed_list scenario_store (UserActivityList ''U1'') (Some 10) (Some 0) = Inr [A2, A1]
   \<and> negative (Some (- 1)) \<and> dialect scenario_store = PostgreSQL
   \<and> feed_list scenario_store (UserActivityList ''U1'') (Some 10) (Some (- 1)) = Inl DataError
   \<and> accepted SQLite (Some 10) \<and> accepted SQLite (Some (- 1))
   \<and> dialect scenario_store_sqlite = SQLite
   \<and> (\<exists>r. feed_list scenario_store_sqlite (UserActivityList ''U1'') (Some 10) (Some (- 1)) = Inr r)
   \<and> \<not> accepted (dialect scenario_store_sqlite) (Some (2 ^ 63))
   \<and> feed_list scenario_store_sqlite (UserActivityList ''U1'') (Some (2 ^ 63)) (Some 0)
       = Inl OverflowError"
  using
    feed_list_never_invalid_argument
      [of scenario_store "UserActivityList ''U1''" "Some 10" "Some (- 1)"]
    feed_list_never_invalid_argument
      [of scenario_store_sqlite "UserActivityList ''U1''" "Some 10" "Some (- 1)"]
    feed_list_never_invalid_argument
      [of scenario_store_sqlite "UserActivityList ''U1''" "Some (2 ^ 63)" "Some 0"]
    scenario_user_page
  by (simp add: store_simps)

text \<open>
  C4 as stated fails: with the offset \<open>-1\<close> the user feed of the scenario fails with the
  database's error on PostgreSQL and returns the whole stream on SQLite; in neither case
  is the outcome \<open>InvalidArgument\<close>.
\<close>

theorem feed_list_invalid_argument_counterexample:
  "negative (Some (- 1))
   \<and> feed_list scenario_store (UserActivityList ''U1'') (Some 10) (Some (- 1)) = Inl DataError
   \<and> feed_list scenario_store (UserActivityList ''U1'') (Some 10) (Some (- 1))
       \<noteq> Inl InvalidArgument
   \<and> feed_list scenario_store_sqlite (UserActivityList ''U1'') (Some 10) (Some (- 1))
       = Inr [A2, A1]"
  by (simp add: query_simps store_simps activity_simps)

text \<open>
  C5 (group that does not exist), as the code has it. When \<open>Group.get\<close> finds no group,
  \<open>group_activity_list\<close> returns the empty list and raises nothing, for every \<open>limit\<close> and
  \<open>offset\<close> that the database accepts: absent, zero, or a count from \<open>0\<close> to \<open>2^63 - 1\<close>
  on PostgreSQL and from \<open>-2^63\<close> to \<open>2^63 - 1\<close> on SQLite.
\<close>

theorem group_activity_list_no_group:
  assumes "Group_get s g = None"
    and "accepted (dialect s) limit" and "accepted (dialect s) offset"
  shows "group_activity_list s g limit offset = Inr []"
proof -
  have "stream s stmt (group_activity_query s g) = []" for stmt
    using assms(1) by (simp add: stream_def group_activity_query_def)
  then have "window limit offset
      (stream s (statement (feed_query s (GroupActivityList g)) limit offset)
         (feed_query s (GroupActivityList g))) = []"
    by simp
  with assms(2,3) show ?thesis
    using feed_list_eq [of s "GroupActivityList g" limit offset] by simp
qed

theorem group_activity_list_no_group_witness:
  "Group_get scenario_store ''nonexistent-id'' = None
   \<and> accepted (dialect scenario_store) (Some 10) \<and> accepted (dialect scenario_store) (Some 0)
   \<and> group_activity_list scenario_store ''nonexistent-id'' (Some 10) (Some 0) = Inr []"
proof -
  have h1: "Group_get scenario_store ''nonexistent-id'' = None"
    by (simp add: store_simps)
  have h2: "accepted (dialect scenario_store) (Some 10)"
    and h3: "accepted (dialect scenario_store) (Some 0)"
    by (simp_all add: store_simps)
  from group_activity_list_no_group [OF h1 h2 h3] h1 h2 h3 show ?thesis
    by simp
qed

text \<open>
  C5 as stated, for every \<open>limit\<close> and \<open>offset\<close>, fails: on PostgreSQL the limit \<open>-1\<close>
  makes the call for a group that does not exist fail with the database's error.
\<close>

theorem group_activity_list_no_group_counterexample:
  "Group_get scenario_store ''nonexistent-id'' = None
   \<and> group_activity_list scenario_store ''nonexistent-id'' (Some (- 1)) (Some 0) = Inl DataError
   \<and> group_activity_list scenario_store ''nonexistent-id'' (Some (- 1)) (Some 0) \<noteq> Inr []"
  by (simp add: query_simps store_simps)

text \<open>
  C6 (pagination), as the code has it. For every feed operation, every store in which no
  two activities of the feed have the same timestamp, and every page size \<open>L\<close> from \<open>1\<close>
  with \<open>2L\<close> at most \<open>2^63 - 1\<close>, the three calls return, and the page at offset \<open>0\<close>
  followed by the page at offset \<open>L\<close> is the page of size \<open>2L\<close> at offset \<open>0\<close>.
\<close>

theorem feed_list_pages_concatenate:
  assumes "0 < L" and "2 * L < 2 ^ 63"
    and "distinct (map timestamp (newest_first s (feed_query s f)))"
  shows "\<exists>p1 p2. feed_list s f (Some L) (Some 0) = Inr p1
           \<and> feed_list s f (Some L) (Some L) = Inr p2
           \<and> feed_list s f (Some (2 * L)) (Some 0) = Inr (p1 @ p2)"
proof -
  let ?all = "newest_first s (feed_query s f)"
  have s: "stream s stmt (feed_query s f) = ?all" for stmt
    using assms(3) by (intro stream_unique) simp_all
  have "L < 2 ^ 63" and "0 < 2 * L"
    using assms(1,2) by simp_all
  from assms(1) \<open>L < 2 ^ 63\<close> have a1: "accepted (dialect s) (Some L)"
    by (rule positive_accepted)
  from \<open>0 < 2 * L\<close> assms(2) have a2: "accepted (dialect s) (Some (2 * L))"
    by (rule positive_accepted)
  have "nat (2 * L) = nat L + nat L"
    using assms(1) by simp
  then have "take (nat (2 * L)) ?all = take (nat L) ?all @ take (nat L) (drop (nat L) ?all)"
    by (simp add: take_add)
  with assms(1) a1 a2 show ?thesis
    by (simp add: feed_list_eq s window_def)
qed

theorem feed_list_pages_concatenate_witness:
  "(0::int) < 1 \<and> (2::int) * 1 < 2 ^ 63
   \<and> distinct (map timestamp
        (newest_first scenario_store (feed_query scenario_store (UserActivityList ''U1''))))
   \<and> feed_list scenario_store (UserActivityList ''U1'') (Some 1) (Some 0) = Inr [A2]
   \<and> feed_list scenario_store (UserActivityList ''U1'') (Some 1) (Some 1) = Inr [A1]
   \<and> feed_list scenario_store (UserActivityList ''U1'') (Some (2 * 1)) (Some 0)
       = Inr ([A2] @ [A1])"
proof -
  have h1: "(0::int) < 1" and h2: "(2::int) * 1 < 2 ^ 63"
    by simp_all
  have "newest_first scenario_store (feed_query scenario_store (UserActivityList ''U1''))
      = [A2, A1]"
    by (simp add: newest_first_def stream_def query_simps store_simps activity_simps)
  then have h3: "distinct (map timestamp
      (newest_first scenario_store (feed_query scenario_store (UserActivityList ''U1''))))"
    by (simp add: activity_simps)
  have p1: "feed_list scenario_store (UserActivityList ''U1'') (Some 1) (Some 0) = Inr [A2]"
    by (simp add: query_simps store_simps activity_simps)
  have p2: "feed_list scenario_store (UserActivityList ''U1'') (Some 1) (Some 1) = Inr [A1]"
    by (simp add: query_simps store_simps activity_simps)
  from feed_list_pages_concatenate [OF h1 h2 h3] p1 p2 h3
  show ?thesis by simp
qed

text \<open>
  C6 as stated, for every log, fails: \<open>B1\<close> and \<open>B2\<close> carry the same timestamp, the
  statements of the three pages are three different statements, and the database of
  \<open>paging_store\<close> puts \<open>B2\<close> first in the statement with the limit \<open>2\<close> only. The two
  pages of size one are \<open>B1\<close> and \<open>B2\<close>; the page of size two is \<open>B2\<close>, \<open>B1\<close>.
\<close>

theorem feed_list_pages_counterexample:
  "(0::int) < 1
   \<and> feed_list paging_store (PackageActivityList ''P1'') (Some 1) (Some 0) = Inr [B1]
   \<and> feed_list paging_store (PackageActivityList ''P1'') (Some 1) (Some 1) = Inr [B2]
   \<and> feed_list paging_store (PackageActivityList ''P1'') (Some (2 * 1)) (Some 0) = Inr [B2, B1]
   \<and> [B1] @ [B2] \<noteq> [B2, B1]"
  by (simp add: query_simps store_simps activity_simps)

text \<open>
  C7 (dashboard superset). Without a window, both \<open>user_activity_list\<close> and
  \<open>dashboard_activity_list\<close> of a user return, and every activity of the first list is in
  the second.
\<close>

theorem dashboard_contains_user_feed:
  "\<exists>xs ys. user_activity_list s u None None = Inr xs
     \<and> dashboard_activity_list s u None None = Inr ys
     \<and> set xs \<subseteq> set ys"
proof -
  have sub: "set (map fst (rows s stmt (user_activity_query u)))
      \<subseteq> set (map fst (rows s stmt (dashboard_activity_query s u)))" for stmt
    unfolding user_activity_query_def dashboard_activity_query_def entities_Union
    by auto
  have "plain (dashboard_activity_query s u)"
    using plain_feed_query [of s "DashboardActivityList u"] by simp
  then have "rows s stmt (dashboard_activity_query s u) =
      rows s stmt' (dashboard_activity_query s u)" for stmt stmt'
    by (rule plain_rows)
  with sub have "set (newest_first s (user_activity_query u))
          \<subseteq> set (newest_first s (dashboard_activity_query s u))"
    unfolding newest_first_def set_stream by metis
  then show ?thesis
    using feed_list_eq [of s "UserActivityList u" None None]
      feed_list_eq [of s "DashboardActivityList u" None None]
    by (simp add: window_def statement_unwindowed newest_first_def)
qed

theorem dashboard_contains_user_feed_witness:
  "user_activity_list follower_store ''U3'' None None = Inr []
   \<and> dashboard_activity_list follower_store ''U3'' None None = Inr [A2, A1]
   \<and> user_activity_list scenario_store ''U1'' None None = Inr [A2, A1]
   \<and> (\<exists>ys. dashboard_activity_list scenario_store ''U1'' None None = Inr ys
          \<and> set [A2, A1] \<subseteq> set ys)"
proof -
  have 1: "user_activity_list follower_store ''U3'' None None = Inr []"
    by (simp add: query_simps store_simps activity_simps)
  have 2: "dashboard_activity_list follower_store ''U3'' None None = Inr [A2, A1]"
    by (simp add: query_simps store_simps activity_simps Let_def)
  have 3: "user_activity_list scenario_store ''U1'' None None = Inr [A2, A1]"
    by (simp add: query_simps store_simps activity_simps)
  from dashboard_contains_user_feed [of scenario_store "''U1''"] 1 2 3
  show ?thesis by auto
qed

text \<open>
  C8 (zero or absent means unbounded). For every feed operation: a \<open>limit\<close> that is zero
  or absent gives what the call without a limit gives, an \<open>offset\<close> that is zero or
  absent gives what the call without an offset gives, and when both are zero or absent
  the call returns, without error, the whole ordered stream, which holds every row of
  the composed query. With a zero or absent \<open>limit\<close> and an offset \<open>k\<close> from \<open>0\<close> to
  \<open>2^63 - 1\<close>, all rows of the stream but \<open>k\<close> are returned; with a zero or absent
  \<open>offset\<close> and a limit \<open>n\<close> from \<open>1\<close> to \<open>2^63 - 1\<close>, \<open>n\<close> rows of the stream are
  returned, or all of them if they are fewer.
\<close>

theorem feed_list_zero_or_absent:
  "(\<not> truthy limit \<longrightarrow> feed_list s f limit offset = feed_list s f None offset)
   \<and> (\<not> truthy offset \<longrightarrow> feed_list s f limit offset = feed_list s f limit None)
   \<and> (\<not> truthy limit \<and> \<not> truthy offset \<longrightarrow>
         feed_list s f limit offset = Inr (newest_first s (feed_query s f)))
   \<and> (\<not> truthy limit \<and> 0 \<le> k \<and> k < 2 ^ 63 \<longrightarrow>
         (\<exists>r. feed_list s f limit (Some k) = Inr r
            \<and> length r = length (newest_first s (feed_query s f)) - nat k
            \<and> mset r \<subseteq># mset (newest_first s (feed_query s f))))
   \<and> (\<not> truthy offset \<and> 0 < n \<and> n < 2 ^ 63 \<longrightarrow>
         (\<exists>r. feed_list s f (Some n) offset = Inr r
            \<and> length r = min (nat n) (length (newest_first s (feed_query s f)))
            \<and> mset r \<subseteq># mset (newest_first s (feed_query s f))))
   \<and> mset (newest_first s (feed_query s f)) = mset (map fst (rows s stmt (feed_query s f)))"
proof -
  let ?q = "feed_query s f"
  let ?all = "newest_first s ?q"
  have m: "mset (stream s st ?q) = mset ?all" for st
    by (rule plain_mset_stream) simp
  have l: "length (stream s st ?q) = length ?all" for st
    using m [of st] by (rule mset_eq_length)
  have 1: "feed_list s f limit offset = feed_list s f None offset" if "\<not> truthy limit"
    unfolding feed_list_query activities_at_offset_statement
      statement_falsy_limit [OF that, of "feed_query s f" offset] ..
  have 2: "feed_list s f limit offset = feed_list s f limit None" if "\<not> truthy offset"
    unfolding feed_list_query activities_at_offset_statement
      statement_falsy_offset [OF that, of "feed_query s f" limit] ..
  have 3: "feed_list s f limit offset = Inr ?all" if "\<not> truthy limit" "\<not> truthy offset"
  proof -
    have "statement ?q limit offset = OrderByTimestampDesc ?q"
      using that statement_falsy_limit statement_falsy_offset statement_unwindowed
      by metis
    with that show ?thesis
      by (simp add: feed_list_eq falsy_accepted window_falsy newest_first_def)
  qed
  have 4: "\<exists>r. feed_list s f limit (Some k) = Inr r \<and> length r = length ?all - nat k
      \<and> mset r \<subseteq># mset ?all" if "\<not> truthy limit" "0 \<le> k" "k < 2 ^ 63"
  proof -
    let ?st = "statement ?q limit (Some k)"
    have w: "window limit (Some k) (stream s ?st ?q) = drop (nat k) (stream s ?st ?q)"
      using that(1,2) by (cases limit) (auto simp: window_def)
    have "accepted (dialect s) (Some k)"
      using that(2,3) by (intro in_range_accepted) simp
    with that(1) have "feed_list s f limit (Some k) = Inr (drop (nat k) (stream s ?st ?q))"
      by (simp add: feed_list_eq falsy_accepted w)
    moreover have "mset (drop (nat k) (stream s ?st ?q)) \<subseteq># mset ?all"
      using mset_drop_le [of "nat k" "stream s ?st ?q"] by (simp only: m)
    ultimately show ?thesis
      by (simp add: l)
  qed
  have 5: "\<exists>r. feed_list s f (Some n) offset = Inr r \<and> length r = min (nat n) (length ?all)
      \<and> mset r \<subseteq># mset ?all" if "\<not> truthy offset" "0 < n" "n < 2 ^ 63"
  proof -
    let ?st = "statement ?q (Some n) offset"
    have w: "window (Some n) offset (stream s ?st ?q) = take (nat n) (stream s ?st ?q)"
      using that(1,2) by (cases offset) (auto simp: window_def)
    have "accepted (dialect s) (Some n)"
      using that(2,3) by (intro positive_accepted)
    with that(1) have "feed_list s f (Some n) offset = Inr (take (nat n) (stream s ?st ?q))"
      by (simp add: feed_list_eq falsy_accepted w)
    moreover have "mset (take (nat n) (stream s ?st ?q)) \<subseteq># mset ?all"
      using mset_take_le [of "nat n" "stream s ?st ?q"] by (simp only: m)
    ultimately show ?thesis
      by (simp add: l min.commute)
  qed
  have pq: "plain ?q"
    by simp
  have 6: "mset ?all = mset (map fst (rows s stmt ?q))"
    unfolding newest_first_def mset_stream
    by (simp only: plain_rows [OF pq, of s "OrderByTimestampDesc ?q" stmt])
  from 1 2 3 4 5 6 show ?thesis
    by blast
qed

theorem feed_list_zero_or_absent_witness:
  "\<not> truthy (Some 0) \<and> \<not> truthy None \<and> (0::int) \<le> 1 \<and> (0::int) < 1 \<and> (1::int) < 2 ^ 63
   \<and> feed_list scenario_store (UserActivityList ''U1'') (Some 0) (Some 0) = Inr [A2, A1]
   \<and> feed_list scenario_store (UserActivityList ''U1'') (Some 0) (Some 0) =
       feed_list scenario_store (UserActivityList ''U1'') None (Some 0)
   \<and> feed_list scenario_store (UserActivityList ''U1'') (Some 0) (Some 0) =
       feed_list scenario_store (UserActivityList ''U1'') (Some 0) None
   \<and> feed_list scenario_store (UserActivityList ''U1'') (Some 0) (Some 0) =
       Inr (newest_first scenario_store (feed_query scenario_store (UserActivityList ''U1'')))
   \<and> feed_list scenario_store (UserActivityList ''U1'') (Some 0) (Some 1) = Inr [A1]
   \<and> length [A1] = length [A2, A1] - nat 1
   \<and> feed_list scenario_store (UserActivityList ''U1'') (Some 1) (Some 0) = Inr [A2]
   \<and> length [A2] = min (nat 1) (length [A2, A1])"
proof -
  have all: "newest_first scenario_store (feed_query scenario_store (UserActivityList ''U1''))
      = [A2, A1]"
    by (simp add: newest_first_def stream_def query_simps store_simps activity_simps)
  have p1: "feed_list scenario_store (UserActivityList ''U1'') (Some 0) (Some 1) = Inr [A1]"
    by (simp add: query_simps store_simps activity_simps)
  have p2: "feed_list scenario_store (UserActivityList ''U1'') (Some 1) (Some 0) = Inr [A2]"
    by (simp add: query_simps store_simps activity_simps)
  have z: "feed_list scenario_store (UserActivityList ''U1'') (Some 0) (Some 0) = Inr [A2, A1]"
    "feed_list scenario_store (UserActivityList ''U1'') None (Some 0) = Inr [A2, A1]"
    "feed_list scenario_store (UserActivityList ''U1'') (Some 0) None = Inr [A2, A1]"
    by (simp_all add: query_simps store_simps activity_simps)
  from feed_list_zero_or_absent
    [where limit = "Some 0" and offset = "Some 0" and s = scenario_store
       and f = "UserActivityList ''U1''" and k = 1 and n = 1 and stmt = Query] all p1 p2 z
  show ?thesis by simp
qed

text \<open>
  C9 (no duplicates in the followed-everything feed). Whatever
  \<open>activities_from_everything_followed_by_user\<close> returns holds each activity at most once:
  the per-group queries are put together with \<open>union_all\<close>, but the query as a whole is a
  \<open>union\<close>.
\<close>

theorem everything_followed_distinct:
  assumes "activities_from_everything_followed_by_user s u limit offset = Inr r"
  shows "distinct r"
proof -
  have "distinct (stream s stmt (activities_from_everything_followed_by_user_query s u))"
    for stmt
    unfolding activities_from_everything_followed_by_user_query_def Let_def
    by (rule distinct_stream_Union)
  then have "distinct (window limit offset
      (stream s (statement (feed_query s (ActivitiesFromEverythingFollowedByUser u)) limit offset)
         (feed_query s (ActivitiesFromEverythingFollowedByUser u))))"
    by (simp add: distinct_window)
  with assms show ?thesis
    using feed_list_eq [of s "ActivitiesFromEverythingFollowedByUser u" limit offset]
    by (auto split: if_splits)
qed

lemma followed_groups_twice:
  "map fst (rows follower_store Query
      (activities_from_groups_followed_by_user_query follower_store ''U3'')) = [A2, A2]"
  by (simp add: query_simps store_simps activity_simps)

lemma followed_everything_once:
  "activities_from_everything_followed_by_user follower_store ''U3'' None None = Inr [A2, A1]"
  by (simp add: query_simps store_simps activity_simps Let_def)

theorem everything_followed_distinct_witness:
  "map fst (rows follower_store Query
      (activities_from_groups_followed_by_user_query follower_store ''U3'')) = [A2, A2]
   \<and> activities_from_everything_followed_by_user follower_store ''U3'' None None = Inr [A2, A1]
   \<and> distinct [A2, A1]"
  using everything_followed_distinct [OF followed_everything_once] followed_groups_twice
    followed_everything_once
  by simp

text \<open>
  C10 (default of \<open>data\<close>). An \<open>Activity\<close> or \<open>ActivityDetail\<close> built with \<open>data\<close> omitted
  or \<open>None\<close> has the empty dict as its \<open>data\<close>; built with a dict, it has that dict; its
  \<open>data\<close> is never \<open>None\<close>.
\<close>

theorem init_data_never_none:
  "data (Activity_init uuid now u obj rv ty None) = Some []
   \<and> data (Activity_init uuid now u obj rv ty (Some d)) = Some d
   \<and> data (Activity_init uuid now u obj rv ty arg) \<noteq> None
   \<and> detail_data (ActivityDetail_init act dobj dtype dty None) = Some []
   \<and> detail_data (ActivityDetail_init act dobj dtype dty (Some d)) = Some d
   \<and> detail_data (ActivityDetail_init act dobj dtype dty arg) \<noteq> None"
  by (simp add: Activity_init_def ActivityDetail_init_def split: option.split)

theorem init_data_never_none_witness:
  "data (Activity_init ''a9'' 50 ''U1'' ''P1'' None ''deleted_package'' None) = Some []
   \<and> data (Activity_init ''a9'' 50 ''U1'' ''P1'' None ''deleted_package''
        (Some [(''title'', JStr ''P1'')])) = Some [(''title'', JStr ''P1'')]
   \<and> detail_data (ActivityDetail_init ''a9'' ''R1'' ''Resource'' ''deleted'' None) = Some []
   \<and> detail_data (ActivityDetail_init ''a9'' ''R1'' ''Resource'' ''deleted''
        (Some [(''title'', JStr ''P1'')])) = Some [(''title'', JStr ''P1'')]"
  using init_data_never_none
    [where uuid = "''a9''" and now = 50 and u = "''U1''" and obj = "''P1''" and rv = None
       and ty = "''deleted_package''" and d = "[(''title'', JStr ''P1'')]"
       and act = "''a9''" and dobj = "''R1''" and dtype = "''Resource''" and dty = "''deleted''"]
  by simp

end
